theory Spec2Isabelle
  imports Complex_Main
begin

section \<open>BudgetBot ML service: shallow embedding of \<open>main.py\<close>\<close>

text \<open>
  The service has three pieces of logic: the keyword classifier
  (\<open>categorize_transaction\<close>), the expense forecast (\<open>forecast_expenses\<close>) and the
  trainer (\<open>train_categorization_model\<close>). Each is embedded below as a HOL function
  that follows the Python statement by statement.
\<close>

subsection \<open>Strings: \<open>str.lower\<close> and the \<open>in\<close> operator\<close>

text \<open>
  Strings are \<open>char list\<close>. \<open>lower\<close> maps the 26 upper-case ASCII letters to their
  lower-case forms and leaves every other character alone, which is what
  \<open>str.lower\<close> does on ASCII text. Every property below is stated over
  \<open>lower (description t)\<close>, the value the loops of the classifier look at.
\<close>

definition lower_char :: "char \<Rightarrow> char" where
  "lower_char c =
     (case map_of (zip ''ABCDEFGHIJKLMNOPQRSTUVWXYZ'' ''abcdefghijklmnopqrstuvwxyz'') c of
        Some l \<Rightarrow> l
      | None \<Rightarrow> c)"

definition lower :: "string \<Rightarrow> string" where
  "lower s = map lower_char s"

text \<open>\<open>starts_with k s\<close>: the string \<open>s\<close> begins with \<open>k\<close>.\<close>

fun starts_with :: "string \<Rightarrow> string \<Rightarrow> bool" where
  "starts_with [] s = True"
| "starts_with (a # k) [] = False"
| "starts_with (a # k) (c # s) = (a = c \<and> starts_with k s)"

text \<open>\<open>str_in k s\<close> is Python's \<open>k in s\<close> on strings: \<open>k\<close> occurs in \<open>s\<close> as a
  contiguous substring.\<close>

fun str_in :: "string \<Rightarrow> string \<Rightarrow> bool" where
  "str_in k [] = (k = [])"
| "str_in k (c # s) = (starts_with k (c # s) \<or> str_in k s)"

subsection \<open>The rule table \<open>CATEGORY_KEYWORDS\<close>\<close>

text \<open>A Python \<open>dict\<close> iterates in insertion order, so the table is an association
  list in the order of the source.\<close>

definition CATEGORY_KEYWORDS :: "(string \<times> string list) list" where
  "CATEGORY_KEYWORDS =
     [(''Groceries'', [''walmart'', ''kroger'', ''safeway'', ''whole foods'', ''grocery'',
                       ''supermarket'', ''food mart'']),
      (''Dining'', [''restaurant'', ''cafe'', ''pizza'', ''mcdonald'', ''starbucks'',
                    ''coffee'', ''burger'', ''dining'']),
      (''Transportation'', [''uber'', ''lyft'', ''gas'', ''fuel'', ''parking'', ''metro'',
                            ''train'', ''bus'', ''transit'']),
      (''Entertainment'', [''movie'', ''netflix'', ''spotify'', ''cinema'', ''theater'',
                           ''gaming'', ''gym'', ''sports'']),
      (''Healthcare'', [''pharmacy'', ''hospital'', ''doctor'', ''clinic'', ''medical'',
                        ''health'', ''cvs'', ''walgreens'']),
      (''Utilities'', [''electric'', ''water'', ''gas bill'', ''internet'', ''phone'',
                       ''utility'', ''comcast'', ''verizon'']),
      (''Shopping'', [''amazon'', ''target'', ''mall'', ''store'', ''retail'', ''clothing'',
                      ''fashion'']),
      (''Rent/Mortgage'', [''rent'', ''mortgage'', ''property'', ''lease''])]"

subsection \<open>\<open>categorize_transaction\<close>\<close>

record Transaction =
  description :: string
  amount :: real
  type :: string

text \<open>The returned dictionary; its key \<open>"method"\<close> is the field \<open>method_name\<close>.\<close>

record categorization =
  category :: string
  confidence :: real
  method_name :: string

text \<open>The inner loop \<open>for keyword in keywords\<close>: \<open>Some category\<close> is the
  \<open>return\<close> inside the loop, \<open>None\<close> is the loop running to its end.\<close>

fun scan_keywords :: "string \<Rightarrow> string list \<Rightarrow> string \<Rightarrow> string option" where
  "scan_keywords cat [] description_lower = None"
| "scan_keywords cat (keyword # kws) description_lower =
     (if str_in keyword description_lower then Some cat
      else scan_keywords cat kws description_lower)"

text \<open>The outer loop \<open>for category, keywords in CATEGORY_KEYWORDS.items()\<close>.\<close>

fun scan_table :: "(string \<times> string list) list \<Rightarrow> string \<Rightarrow> string option" where
  "scan_table [] description_lower = None"
| "scan_table ((cat, kws) # table) description_lower =
     (case scan_keywords cat kws description_lower of
        Some c \<Rightarrow> Some c
      | None \<Rightarrow> scan_table table description_lower)"

definition categorize_transaction :: "Transaction \<Rightarrow> categorization" where
  "categorize_transaction transaction =
     (let description_lower = lower (description transaction) in
      case scan_table CATEGORY_KEYWORDS description_lower of
        Some c \<Rightarrow> \<lparr>category = c, confidence = 85 / 100, method_name = ''keyword_matching''\<rparr>
      | None \<Rightarrow>
          \<lparr>category = (if type transaction = ''expense'' then ''Shopping''
                       else ''Other Income''),
           confidence = 50 / 100,
           method_name = ''default''\<rparr>)"

text \<open>The rule table read as one sequence of (category, keyword) rules: categories in
  table order, keywords in the order of their list.\<close>

definition rules_of :: "(string \<times> string list) list \<Rightarrow> (string \<times> string) list" where
  "rules_of table = concat (map (\<lambda>(cat, kws). map (\<lambda>keyword. (cat, keyword)) kws) table)"

definition rules :: "(string \<times> string) list" where
  "rules = rules_of CATEGORY_KEYWORDS"

definition rule_matches :: "string \<Rightarrow> string \<times> string \<Rightarrow> bool" where
  "rule_matches d r = str_in (snd r) d"

subsection \<open>Rows of the \<open>/forecast\<close> and \<open>/train\<close> requests\<close>

text \<open>
  Both endpoints take \<open>List[Dict]\<close>: JSON objects carrying the transaction fields and
  \<open>transaction_date\<close>, \<open>category_id\<close>, \<open>user_id\<close>. A row is modelled with every
  field the two functions read present and of its documented type: the amount a finite
  number, the date a calendar day (counted in days since 1970-01-01), the label and the
  user identifier integers. On such rows no statement inside the \<open>try\<close> block of
  \<open>forecast_expenses\<close> raises, and none inside that of
  \<open>train_categorization_model\<close> does when the amounts are above \<open>-1\<close>, so the
  \<open>except\<close> clauses (HTTP 500 on a missing key, an unparsable value or a feature that
  is not a number) have no counterpart here.
\<close>

record Row = Transaction +
  transaction_date :: int
  category_id :: int
  user_id :: int

record ForecastRequest =
  request_user_id :: int
  transactions :: "Row list"

subsection \<open>Floating-point values\<close>

text \<open>
  A \<open>float64\<close> is a real number or NaN. Arithmetic is exact on numbers (rounding
  error and overflow are not modelled) and NaN propagates through every operation, as it
  does in numpy and Python. Comparisons with NaN are false. A value the code computes is
  the model's value up to the rounding error of the doubles: which values are NaN is
  exact, the digits of a number are not.
\<close>

datatype float64 = Num real | NaN

fun fadd :: "float64 \<Rightarrow> float64 \<Rightarrow> float64" where
  "fadd (Num a) (Num b) = Num (a + b)"
| "fadd _ _ = NaN"

fun fsub :: "float64 \<Rightarrow> float64 \<Rightarrow> float64" where
  "fsub (Num a) (Num b) = Num (a - b)"
| "fsub _ _ = NaN"

fun fmul :: "float64 \<Rightarrow> float64 \<Rightarrow> float64" where
  "fmul (Num a) (Num b) = Num (a * b)"
| "fmul _ _ = NaN"

text \<open>Division is only ever applied with the divisor 30.\<close>

fun fdiv :: "float64 \<Rightarrow> float64 \<Rightarrow> float64" where
  "fdiv (Num a) (Num b) = Num (a / b)"
| "fdiv _ _ = NaN"

fun gt_zero :: "float64 \<Rightarrow> bool" where
  "gt_zero (Num a) = (0 < a)"
| "gt_zero NaN = False"

text \<open>\<open>round(x, 2)\<close>: the nearest multiple of 0.01; \<open>round(nan, 2)\<close> is \<open>nan\<close>.
  A tie goes to the even neighbour of the exact real here. Python rounds the double,
  which seldom holds a decimal tie exactly: the double nearest to 2.675 lies below it
  and is rounded to 2.67, where the model gives 2.68. Both are within half a cent of
  2.675, which is all that the properties below say of a rounded value
  (\<open>round2_nearest\<close>).\<close>

definition round_half_even :: "real \<Rightarrow> int" where
  "round_half_even x =
     (let f = \<lfloor>x\<rfloor>; r = x - of_int f in
      if r < 1 / 2 then f
      else if 1 / 2 < r then f + 1
      else if even f then f else f + 1)"

fun round2 :: "float64 \<Rightarrow> float64" where
  "round2 (Num a) = Num (of_int (round_half_even (a * 100)) / 100)"
| "round2 NaN = NaN"

subsection \<open>The pandas operations used by \<open>forecast_expenses\<close>\<close>

text \<open>\<open>df.sort_values('transaction_date')\<close>.\<close>

definition sort_values :: "Row list \<Rightarrow> Row list" where
  "sort_values df = sort_key transaction_date df"

text \<open>\<open>df.groupby('transaction_date')['amount'].sum()\<close>: one entry per distinct date,
  in ascending date order, holding the sum of the amounts of the rows of that date.\<close>

definition groupby_sum :: "Row list \<Rightarrow> (int \<times> real) list" where
  "groupby_sum df =
     map (\<lambda>d. (d, sum_list (map amount (filter (\<lambda>r. transaction_date r = d) df))))
       (sort (remdups (map transaction_date df)))"

text \<open>\<open>series.rolling(window=w).mean()\<close>: a series of the same length; position \<open>k\<close>
  (from 0) is NaN while fewer than \<open>w\<close> values have been seen, and the mean of the
  last \<open>w\<close> values up to and including position \<open>k\<close> otherwise.\<close>

definition rolling_mean :: "nat \<Rightarrow> real list \<Rightarrow> float64 list" where
  "rolling_mean w xs =
     map (\<lambda>k. if k + 1 < w then NaN
              else Num (sum_list (take w (drop (k + 1 - w) xs)) / real w))
       [0..<length xs]"

text \<open>\<open>series.mean()\<close>: NaN on an empty series.\<close>

definition series_mean :: "real list \<Rightarrow> float64" where
  "series_mean xs = (if xs = [] then NaN else Num (sum_list xs / real (length xs)))"

subsection \<open>\<open>forecast_expenses\<close>\<close>

text \<open>
  The key \<open>"confidence"\<close> of a prediction is the field \<open>confidence_label\<close> (the
  classifier's result has a numeric field of that name). \<open>date\<close> is the day that
  \<open>strftime("%Y-%m-%d")\<close> prints.
\<close>

record prediction =
  date :: int
  predicted_amount :: float64
  confidence_label :: string

record forecast =
  forecast_period :: string
  total_predicted_expense :: float64
  daily_predictions :: "prediction list"
  avg_daily_expense :: float64
  trend :: string

text \<open>\<open>InsufficientData e m\<close> is the dictionary \<open>{"error": e, "message": m}\<close>.\<close>

datatype forecast_response = InsufficientData string string | Forecast forecast

text \<open>\<open>today\<close> is the day of \<open>datetime.now()\<close>, the clock being an input of the model.
  The local \<open>trend\<close> is \<open>trend_val\<close> here, \<open>trend\<close> being the key of the result.
  Python's \<open>sum\<close> adds from the left, starting at 0.\<close>

definition forecast_expenses :: "int \<Rightarrow> ForecastRequest \<Rightarrow> forecast_response" where
  "forecast_expenses today request =
     (if length (transactions request) < 30 then
        InsufficientData ''Insufficient data''
          ''Need at least 30 transactions for accurate forecasting''
      else
        let df = sort_values (transactions request);
            daily_spending = map snd (groupby_sum df);
            ma_7 = rolling_mean 7 daily_spending;
            ma_30 = rolling_mean 30 daily_spending;
            avg_daily = series_mean daily_spending;
            trend_val = (if 0 < length ma_7 then fsub (last ma_7) (last ma_30) else Num 0);
            predictions =
              map (\<lambda>i. \<lparr>date = today + int i,
                         predicted_amount =
                           round2 (fadd avg_daily (fdiv (fmul trend_val (Num (real i))) (Num 30))),
                         confidence_label = ''medium''\<rparr>)
                [1..<31];
            total_predicted = foldl fadd (Num 0) (map predicted_amount predictions)
        in Forecast
             \<lparr>forecast_period = ''30_days'',
              total_predicted_expense = round2 total_predicted,
              daily_predictions = predictions,
              avg_daily_expense = round2 avg_daily,
              trend = (if gt_zero trend_val then ''increasing'' else ''decreasing'')\<rparr>)"

text \<open>The locals \<open>daily_spending\<close>, \<open>ma_7\<close>, \<open>ma_30\<close>, \<open>avg_daily\<close> and \<open>trend\<close> of
  \<open>forecast_expenses\<close>, as functions of the transaction list.\<close>

definition daily_spending_of :: "Row list \<Rightarrow> real list" where
  "daily_spending_of txs = map snd (groupby_sum (sort_values txs))"

definition ma_7_of :: "Row list \<Rightarrow> float64 list" where
  "ma_7_of txs = rolling_mean 7 (daily_spending_of txs)"

definition ma_30_of :: "Row list \<Rightarrow> float64 list" where
  "ma_30_of txs = rolling_mean 30 (daily_spending_of txs)"

definition avg_daily_of :: "Row list \<Rightarrow> float64" where
  "avg_daily_of txs = series_mean (daily_spending_of txs)"

definition trend_of :: "Row list \<Rightarrow> float64" where
  "trend_of txs =
     (if 0 < length (ma_7_of txs) then fsub (last (ma_7_of txs)) (last (ma_30_of txs))
      else Num 0)"

subsection \<open>\<open>train_categorization_model\<close>\<close>

text \<open>\<open>dt.dayofweek\<close>: Monday is 0; 1970-01-01 was a Thursday.\<close>

definition dayofweek :: "int \<Rightarrow> nat" where
  "dayofweek d = nat ((d + 3) mod 7)"

text \<open>\<open>np.log1p\<close>, on the amounts above \<open>-1\<close> where it is a number.\<close>

definition log1p :: "real \<Rightarrow> real" where
  "log1p a = ln (1 + a)"

text \<open>
  The artifact written by \<open>joblib.dump\<close>: the forest is fitted with a fixed tree count
  and a fixed seed, so it is represented by these two constructor arguments and the
  training data \<open>X\<close>, \<open>y\<close> it was fitted on.
\<close>

record forest =
  n_estimators :: nat
  random_state :: nat
  fit_X :: "(real \<times> nat) list"
  fit_y :: "int list"

text \<open>The directory \<open>models\<close>: the file \<open>categorizer_{user_id}.pkl\<close> holds the artifact
  of that user, and \<open>joblib.dump\<close> replaces the file.\<close>

type_synonym model_store = "int \<rightharpoonup> forest"

record training_report =
  message :: string
  accuracy :: string
  samples_used :: nat

text \<open>\<open>NeedMore m\<close> is the dictionary \<open>{"message": m}\<close>.\<close>

datatype train_response = NeedMore string | Trained training_report

text \<open>The function returns its response and the store as it leaves it.\<close>

definition train_categorization_model ::
    "model_store \<Rightarrow> Row list \<Rightarrow> train_response \<times> model_store" where
  "train_categorization_model models batch =
     (let df = batch in
      if length df < 50 then
        (NeedMore ''Need at least 50 labeled transactions to train'', models)
      else
        let description_lower = map (\<lambda>r. lower (description r)) df;
            X = map (\<lambda>r. (log1p (amount r), dayofweek (transaction_date r))) df;
            y = map category_id df;
            model = \<lparr>n_estimators = 100, random_state = 42, fit_X = X, fit_y = y\<rparr>
        in (Trained \<lparr>message = ''Model trained successfully'',
                      accuracy = ''~85%'',
                      samples_used = length df\<rparr>,
            models(user_id (batch ! 0) \<mapsto> model)))"

section \<open>Properties of the classifier\<close>

lemma starts_with_iff: "starts_with k s \<longleftrightarrow> (\<exists>zs. s = k @ zs)"
  by (induction k s rule: starts_with.induct) auto

lemma str_in_iff: "str_in k s \<longleftrightarrow> (\<exists>ys zs. s = ys @ k @ zs)"
proof (induction s)
  case Nil
  then show ?case by auto
next
  case (Cons c s)
  show ?case
  proof
    assume "str_in k (c # s)"
    then consider "starts_with k (c # s)" | "str_in k s" by auto
    then show "\<exists>ys zs. c # s = ys @ k @ zs"
    proof cases
      case 1
      then obtain zs where "c # s = k @ zs" by (auto simp: starts_with_iff)
      then have "c # s = [] @ k @ zs" by simp
      then show ?thesis by blast
    next
      case 2
      then obtain ys zs where "s = ys @ k @ zs" using Cons.IH by blast
      then have "c # s = (c # ys) @ k @ zs" by simp
      then show ?thesis by blast
    qed
  next
    assume "\<exists>ys zs. c # s = ys @ k @ zs"
    then obtain ys zs where e: "c # s = ys @ k @ zs" by blast
    show "str_in k (c # s)"
    proof (cases ys)
      case Nil
      with e have "starts_with k (c # s)" by (auto simp: starts_with_iff)
      then show ?thesis by simp
    next
      case (Cons y ys')
      with e have "s = ys' @ k @ zs" by simp
      then have "str_in k s" using Cons.IH by blast
      then show ?thesis by simp
    qed
  qed
qed

lemma scan_keywords_find:
  "scan_keywords cat kws d =
     map_option fst (find (rule_matches d) (map (\<lambda>keyword. (cat, keyword)) kws))"
  by (induction kws) (auto simp: rule_matches_def)

lemma find_append:
  "find P (xs @ ys) = (case find P xs of Some x \<Rightarrow> Some x | None \<Rightarrow> find P ys)"
  by (induction xs) auto

lemma scan_table_find:
  "scan_table table d = map_option fst (find (rule_matches d) (rules_of table))"
proof (induction table)
  case Nil
  then show ?case by (simp add: rules_of_def)
next
  case (Cons row table)
  obtain cat kws where row: "row = (cat, kws)" by (cases row)
  have "rules_of (row # table) = map (\<lambda>keyword. (cat, keyword)) kws @ rules_of table"
    by (simp add: rules_of_def row)
  then show ?case
    using Cons.IH by (simp add: row scan_keywords_find find_append split: option.splits)
qed

lemma find_first_index:
  "find P xs = Some x \<longleftrightarrow> (\<exists>i<length xs. xs ! i = x \<and> P x \<and> (\<forall>j<i. \<not> P (xs ! j)))"
  by (auto simp: find_Some_iff)

lemma find_None_set: "find P xs = None \<longleftrightarrow> (\<forall>x\<in>set xs. \<not> P x)"
  by (auto simp: find_None_iff)

text \<open>
  \<^bold>\<open>C3.\<close> When the lower-cased description contains a keyword of some rule, there is
  a first rule of the table (categories in table order, keywords in list order) whose
  keyword it contains, and the classifier returns that rule's category with confidence
  0.85 and method \<open>keyword_matching\<close>.
\<close>

theorem categorize_first_match:
  assumes "\<exists>r\<in>set rules. str_in (snd r) (lower (description t))"
  shows "\<exists>i<length rules.
           str_in (snd (rules ! i)) (lower (description t)) \<and>
           (\<forall>j<i. \<not> str_in (snd (rules ! j)) (lower (description t))) \<and>
           categorize_transaction t =
             \<lparr>category = fst (rules ! i), confidence = 85 / 100, method_name = ''keyword_matching''\<rparr>"
proof -
  let ?d = "lower (description t)"
  from assms have "find (rule_matches ?d) rules \<noteq> None"
    by (auto simp: find_None_set rule_matches_def)
  then obtain r where r: "find (rule_matches ?d) rules = Some r" by blast
  then obtain i where i: "i < length rules" "rules ! i = r" "rule_matches ?d r"
      "\<forall>j<i. \<not> rule_matches ?d (rules ! j)"
    unfolding find_first_index by blast
  have "scan_table CATEGORY_KEYWORDS ?d = Some (fst r)"
    using r by (simp add: scan_table_find rules_def)
  then have "categorize_transaction t =
      \<lparr>category = fst (rules ! i), confidence = 85 / 100, method_name = ''keyword_matching''\<rparr>"
    by (simp add: categorize_transaction_def i(2))
  with i show ?thesis unfolding rule_matches_def by blast
qed

theorem categorize_first_match_witness:
  "(\<exists>r\<in>set rules. str_in (snd r) (lower ''Starbucks Coffee #4521'')) \<and>
   (\<exists>i<length rules.
      str_in (snd (rules ! i)) (lower ''Starbucks Coffee #4521'') \<and>
      (\<forall>j<i. \<not> str_in (snd (rules ! j)) (lower ''Starbucks Coffee #4521'')) \<and>
      categorize_transaction
        \<lparr>description = ''Starbucks Coffee #4521'', amount = 9 / 2, type = ''expense''\<rparr> =
        \<lparr>category = fst (rules ! i), confidence = 85 / 100, method_name = ''keyword_matching''\<rparr>) \<and>
   categorize_transaction
     \<lparr>description = ''Starbucks Coffee #4521'', amount = 9 / 2, type = ''expense''\<rparr> =
     \<lparr>category = ''Dining'', confidence = 85 / 100, method_name = ''keyword_matching''\<rparr>"
proof -
  have m: "(''Dining'', ''coffee'') \<in> set rules"
    by (simp add: rules_def rules_of_def CATEGORY_KEYWORDS_def)
  have "str_in ''coffee'' (lower ''Starbucks Coffee #4521'')"
    by (simp add: lower_def lower_char_def)
  with m have h: "\<exists>r\<in>set rules. str_in (snd r)
      (lower (description \<lparr>description = ''Starbucks Coffee #4521'', amount = 9 / 2, type = ''expense''\<rparr>))"
    by force
  have e: "categorize_transaction
     \<lparr>description = ''Starbucks Coffee #4521'', amount = 9 / 2, type = ''expense''\<rparr> =
     \<lparr>category = ''Dining'', confidence = 85 / 100, method_name = ''keyword_matching''\<rparr>"
    by (simp add: categorize_transaction_def lower_def lower_char_def CATEGORY_KEYWORDS_def)
  show ?thesis
    using h categorize_first_match [OF h] e by simp
qed

text \<open>
  \<^bold>\<open>C8.\<close> When the lower-cased description contains no keyword of the table, the
  classifier returns method \<open>default\<close> and confidence 0.50; the category is
  \<open>Shopping\<close> exactly when the type is \<open>expense\<close> and \<open>Other Income\<close> exactly when
  it is not. \<open>categorize_transaction\<close> is a total function whose result type has no
  error value (neither \<open>lower\<close>, nor the two loops, nor the fallback can raise): every
  transaction gets a result, by keyword matching or by default.
\<close>

theorem categorize_default:
  "((\<forall>r\<in>set rules. \<not> str_in (snd r) (lower (description t))) \<longrightarrow>
      method_name (categorize_transaction t) = ''default'' \<and>
      confidence (categorize_transaction t) = 50 / 100 \<and>
      (category (categorize_transaction t) = ''Shopping'' \<longleftrightarrow> type t = ''expense'') \<and>
      (category (categorize_transaction t) = ''Other Income'' \<longleftrightarrow> type t \<noteq> ''expense'')) \<and>
   (method_name (categorize_transaction t) = ''keyword_matching'' \<or>
    method_name (categorize_transaction t) = ''default'')"
proof -
  have "scan_table CATEGORY_KEYWORDS (lower (description t)) = None"
    if "\<forall>r\<in>set rules. \<not> str_in (snd r) (lower (description t))"
  proof -
    from that have "find (rule_matches (lower (description t))) rules = None"
      by (simp add: find_None_set rule_matches_def)
    then show ?thesis by (simp add: scan_table_find rules_def)
  qed
  then show ?thesis
    by (auto simp: categorize_transaction_def split: option.splits)
qed

theorem categorize_default_witness:
  "method_name (categorize_transaction
     \<lparr>description = ''Acme Consulting Payment'', amount = 1200, type = ''income''\<rparr>) = ''default'' \<and>
   confidence (categorize_transaction
     \<lparr>description = ''Acme Consulting Payment'', amount = 1200, type = ''income''\<rparr>) = 50 / 100 \<and>
   category (categorize_transaction
     \<lparr>description = ''Acme Consulting Payment'', amount = 1200, type = ''income''\<rparr>) = ''Other Income''"
proof -
  have h: "\<forall>r\<in>set rules. \<not> str_in (snd r)
     (lower (description \<lparr>description = ''Acme Consulting Payment'', amount = 1200, type = ''income''\<rparr>))"
    by (simp add: rules_def rules_of_def CATEGORY_KEYWORDS_def lower_def lower_char_def)
  show ?thesis
    using categorize_default
      [of "\<lparr>description = ''Acme Consulting Payment'', amount = 1200, type = ''income''\<rparr>"] h
    by simp
qed

text \<open>
  \<^bold>\<open>C10.\<close> When a keyword matches, the whole result depends on the description only:
  two transactions with the same description and any two types get the same category,
  confidence 0.85 and method \<open>keyword_matching\<close>. An income transaction described as
  \<open>Shell gas station\<close> is classified as \<open>Transportation\<close>.
\<close>

theorem categorize_ignores_type:
  assumes "\<exists>r\<in>set rules. str_in (snd r) (lower (description t1))"
    and "description t2 = description t1"
  shows "categorize_transaction t2 = categorize_transaction t1 \<and>
         confidence (categorize_transaction t2) = 85 / 100 \<and>
         method_name (categorize_transaction t2) = ''keyword_matching''"
proof -
  from assms(1) have "find (rule_matches (lower (description t1))) rules \<noteq> None"
    by (auto simp: find_None_set rule_matches_def)
  then obtain c where "scan_table CATEGORY_KEYWORDS (lower (description t1)) = Some c"
    by (auto simp: scan_table_find rules_def)
  then show ?thesis using assms(2) by (simp add: categorize_transaction_def)
qed

theorem categorize_ignores_type_witness:
  "categorize_transaction \<lparr>description = ''Shell gas station'', amount = 40, type = ''income''\<rparr> =
   categorize_transaction \<lparr>description = ''Shell gas station'', amount = 40, type = ''expense''\<rparr> \<and>
   categorize_transaction \<lparr>description = ''Shell gas station'', amount = 40, type = ''income''\<rparr> =
     \<lparr>category = ''Transportation'', confidence = 85 / 100, method_name = ''keyword_matching''\<rparr>"
proof -
  have m: "(''Transportation'', ''gas'') \<in> set rules"
    by (simp add: rules_def rules_of_def CATEGORY_KEYWORDS_def)
  have "str_in ''gas'' (lower ''Shell gas station'')"
    by (simp add: lower_def lower_char_def)
  with m have h: "\<exists>r\<in>set rules. str_in (snd r)
      (lower (description \<lparr>description = ''Shell gas station'', amount = 40, type = ''expense''\<rparr>))"
    by force
  have e: "categorize_transaction \<lparr>description = ''Shell gas station'', amount = 40, type = ''expense''\<rparr> =
     \<lparr>category = ''Transportation'', confidence = 85 / 100, method_name = ''keyword_matching''\<rparr>"
    by (simp add: categorize_transaction_def lower_def lower_char_def CATEGORY_KEYWORDS_def)
  show ?thesis
    using categorize_ignores_type [OF h,
        of "\<lparr>description = ''Shell gas station'', amount = 40, type = ''income''\<rparr>"] e
    by simp
qed

section \<open>Properties of the forecast\<close>

subsection \<open>Daily totals\<close>

lemma length_groupby_sum: "length (groupby_sum df) = card (transaction_date ` set df)"
  by (simp add: groupby_sum_def length_remdups_card_conv)

lemma length_daily_spending_of:
  "length (daily_spending_of txs) = card (transaction_date ` set txs)"
  by (simp add: daily_spending_of_def length_groupby_sum sort_values_def)

lemma daily_spending_of_nonempty: "txs \<noteq> [] \<Longrightarrow> daily_spending_of txs \<noteq> []"
proof -
  assume "txs \<noteq> []"
  then have "transaction_date ` set txs \<noteq> {}" by simp
  then have "card (transaction_date ` set txs) \<noteq> 0" by simp
  then show ?thesis
    using length_daily_spending_of [of txs] by auto
qed

lemma length_rolling_mean: "length (rolling_mean w xs) = length xs"
  by (simp add: rolling_mean_def)

lemma last_rolling_mean:
  assumes "xs \<noteq> []"
  shows "last (rolling_mean w xs) =
           (if length xs < w then NaN
            else Num (sum_list (take w (drop (length xs - w) xs)) / real w))"
proof -
  from assms have n: "0 < length xs" by simp
  then have "[0..<length xs] \<noteq> []" by simp
  then have "last (rolling_mean w xs) =
      (\<lambda>k. if k + 1 < w then NaN
           else Num (sum_list (take w (drop (k + 1 - w) xs)) / real w)) (last [0..<length xs])"
    unfolding rolling_mean_def by (rule last_map)
  also have "last [0..<length xs] = length xs - 1" using n by (simp add: last_upt)
  finally show ?thesis using n by (auto simp: Suc_diff_le)
qed

lemma sum_list_filter_groups:
  fixes f :: "'a \<Rightarrow> real"
  assumes "distinct ds"
  shows "sum_list (map (\<lambda>d. sum_list (map f (filter (\<lambda>r. g r = d) xs))) ds) =
         sum_list (map f (filter (\<lambda>r. g r \<in> set ds) xs))"
  using assms
proof (induction ds)
  case Nil
  then show ?case by simp
next
  case (Cons d ds)
  then have IH: "sum_list (map (\<lambda>d. sum_list (map f (filter (\<lambda>r. g r = d) xs))) ds) =
         sum_list (map f (filter (\<lambda>r. g r \<in> set ds) xs))" and d: "d \<notin> set ds" by simp_all
  have "sum_list (map f (filter (\<lambda>r. g r \<in> set (d # ds)) xs)) =
        sum_list (map f (filter (\<lambda>r. g r = d) xs)) + sum_list (map f (filter (\<lambda>r. g r \<in> set ds) xs))"
    using d by (induction xs) auto
  then show ?case using IH by simp
qed

lemma sum_list_insort_key:
  fixes f :: "'a \<Rightarrow> real"
  shows "sum_list (map f (insort_key k x xs)) = f x + sum_list (map f xs)"
  by (induction xs) auto

lemma sum_list_sort_key:
  fixes f :: "'a \<Rightarrow> real"
  shows "sum_list (map f (sort_key k xs)) = sum_list (map f xs)"
  by (induction xs) (auto simp: sum_list_insort_key)

lemma sum_daily_spending_of:
  "sum_list (daily_spending_of txs) = sum_list (map amount txs)"
proof -
  let ?df = "sort_values txs"
  let ?ds = "sort (remdups (map transaction_date ?df))"
  have "distinct ?ds" by simp
  then have "sum_list (map (\<lambda>d. sum_list (map amount (filter (\<lambda>r. transaction_date r = d) ?df))) ?ds)
     = sum_list (map amount (filter (\<lambda>r. transaction_date r \<in> set ?ds) ?df))"
    by (rule sum_list_filter_groups)
  also have "filter (\<lambda>r. transaction_date r \<in> set ?ds) ?df = ?df"
    by (simp add: filter_id_conv)
  also have "sum_list (map amount ?df) = sum_list (map amount txs)"
    unfolding sort_values_def by (rule sum_list_sort_key)
  finally show ?thesis
    by (simp add: daily_spending_of_def groupby_sum_def comp_def)
qed

lemma daily_spending_of_spec:
  "daily_spending_of txs =
     map (\<lambda>d. sum_list (map amount (filter (\<lambda>r. transaction_date r = d) txs)))
       (sorted_list_of_set (transaction_date ` set txs))"
proof -
  have "sort (remdups (map transaction_date (sort_values txs))) =
        sorted_list_of_set (transaction_date ` set txs)"
    by (simp add: sorted_list_of_set_sort_remdups [symmetric] sort_values_def)
  moreover have "sum_list (map amount (filter P (sort_values txs))) =
        sum_list (map amount (filter P txs))" for P
    by (simp add: sort_values_def filter_sort sum_list_sort_key)
  ultimately show ?thesis
    by (simp add: daily_spending_of_def groupby_sum_def comp_def)
qed

subsection \<open>Moving averages, mean and trend\<close>

lemma gt_zero_iff: "gt_zero t \<longleftrightarrow> (\<exists>x. t = Num x \<and> 0 < x)"
  by (cases t) auto

lemma avg_daily_of_defined:
  assumes "txs \<noteq> []"
  shows "avg_daily_of txs =
           Num (sum_list (daily_spending_of txs) / real (length (daily_spending_of txs)))"
  using daily_spending_of_nonempty [OF assms] by (simp add: avg_daily_of_def series_mean_def)

lemma trend_of_nonempty:
  assumes "txs \<noteq> []"
  shows "trend_of txs = fsub (last (ma_7_of txs)) (last (ma_30_of txs))"
  using daily_spending_of_nonempty [OF assms]
  by (simp add: trend_of_def ma_7_of_def length_rolling_mean)

lemma last_ma_30_of:
  assumes "txs \<noteq> []" and "card (transaction_date ` set txs) < 30"
  shows "last (ma_30_of txs) = NaN"
  using daily_spending_of_nonempty [OF assms(1)] assms(2)
  by (simp add: ma_30_of_def last_rolling_mean length_daily_spending_of)

lemma fsub_NaN_right: "fsub a NaN = NaN"
  by (cases a) simp_all

lemma fmul_NaN_left: "fmul NaN b = NaN"
  by simp

lemma fadd_NaN_right: "fadd a NaN = NaN"
  by (cases a) simp_all

lemma trend_of_few_days:
  assumes "txs \<noteq> []" and "card (transaction_date ` set txs) < 30"
  shows "trend_of txs = NaN"
  by (simp add: trend_of_nonempty [OF assms(1)] last_ma_30_of [OF assms] fsub_NaN_right)

lemma trend_of_30_days:
  assumes "30 \<le> card (transaction_date ` set txs)"
  shows "trend_of txs =
     Num (sum_list (take 7 (drop (length (daily_spending_of txs) - 7) (daily_spending_of txs))) / 7
        - sum_list (take 30 (drop (length (daily_spending_of txs) - 30) (daily_spending_of txs))) / 30)"
proof -
  from assms have ne: "txs \<noteq> []" by auto
  have l: "30 \<le> length (daily_spending_of txs)"
    using assms by (simp add: length_daily_spending_of)
  then have "daily_spending_of txs \<noteq> []" by auto
  then show ?thesis using l
    by (simp add: trend_of_nonempty [OF ne] ma_7_of_def ma_30_of_def last_rolling_mean)
qed

subsection \<open>Rounding\<close>

lemma round_half_even_nearest: "\<bar>real_of_int (round_half_even x) - x\<bar> \<le> 1 / 2"
proof -
  have "real_of_int \<lfloor>x\<rfloor> \<le> x" and "x < real_of_int \<lfloor>x\<rfloor> + 1" by linarith+
  then show ?thesis
    by (auto simp: round_half_even_def Let_def)
qed

lemma round2_nearest:
  "\<exists>n. round2 (Num a) = Num (real_of_int n / 100) \<and> \<bar>real_of_int n / 100 - a\<bar> \<le> 1 / 200"
proof -
  have "\<bar>real_of_int (round_half_even (a * 100)) - a * 100\<bar> \<le> 1 / 2"
    by (rule round_half_even_nearest)
  then have "\<bar>real_of_int (round_half_even (a * 100)) / 100 - a\<bar> \<le> 1 / 200"
    by (simp add: abs_if split: if_splits)
  then show ?thesis by auto
qed

subsection \<open>The two outcomes of \<open>forecast_expenses\<close>\<close>

lemma forecast_expenses_sufficient:
  assumes "30 \<le> length (transactions request)"
  shows "forecast_expenses today request =
     Forecast
       \<lparr>forecast_period = ''30_days'',
        total_predicted_expense =
          round2 (foldl fadd (Num 0)
            (map (\<lambda>i. round2 (fadd (avg_daily_of (transactions request))
                     (fdiv (fmul (trend_of (transactions request)) (Num (real i))) (Num 30))))
              [1..<31])),
        daily_predictions =
          map (\<lambda>i. \<lparr>date = today + int i,
                     predicted_amount =
                       round2 (fadd (avg_daily_of (transactions request))
                         (fdiv (fmul (trend_of (transactions request)) (Num (real i))) (Num 30))),
                     confidence_label = ''medium''\<rparr>)
            [1..<31],
        avg_daily_expense = round2 (avg_daily_of (transactions request)),
        trend = (if gt_zero (trend_of (transactions request)) then ''increasing''
                 else ''decreasing'')\<rparr>"
  using assms
  by (simp add: forecast_expenses_def Let_def trend_of_def avg_daily_of_def ma_7_of_def
      ma_30_of_def daily_spending_of_def comp_def del: upt_rec_numeral)

lemma forecast_expenses_insufficient:
  assumes "length (transactions request) < 30"
  shows "forecast_expenses today request =
     InsufficientData ''Insufficient data''
       ''Need at least 30 transactions for accurate forecasting''"
  using assms by (simp add: forecast_expenses_def)

subsection \<open>A history of thirty days with one transaction of 10 each\<close>

lemma thirty_days_daily:
  "daily_spending_of
     (map (\<lambda>i. \<lparr>description = ''lunch'', amount = 10, type = ''expense'',
                 transaction_date = int i, category_id = 1, user_id = 1\<rparr>) [0..<30]) =
   replicate 30 10"
  by code_simp

lemma thirty_days_trend:
  "trend_of
     (map (\<lambda>i. \<lparr>description = ''lunch'', amount = 10, type = ''expense'',
                 transaction_date = int i, category_id = 1, user_id = 1\<rparr>) [0..<30]) = Num 0"
  by code_simp

subsection \<open>A history of thirty days, day \<open>i\<close> with one transaction of amount \<open>i\<close>\<close>

lemma rising_days_daily:
  "daily_spending_of
     (map (\<lambda>i. \<lparr>description = ''lunch'', amount = real i, type = ''expense'',
                 transaction_date = int i, category_id = 1, user_id = 1\<rparr>) [0..<30]) =
   map real [0..<30]"
  by code_simp

lemma rising_days_mean:
  "sum_list (map real [0..<30]) / real (length (map real [0..<30])) = 29 / 2"
  by code_simp

lemma rising_days_slope:
  "sum_list (take 7 (drop (length (map real [0..<30]) - 7) (map real [0..<30]))) / 7 -
   sum_list (take 30 (drop (length (map real [0..<30]) - 30) (map real [0..<30]))) / 30 = 23 / 2"
  by code_simp

lemma cents_unique:
  assumes "\<bar>real_of_int n / 100 - (29 / 2 + 23 / 2 * real 1 / 30)\<bar> \<le> 1 / 200"
  shows "n = 1488"
proof -
  from assms have "real_of_int n / 100 - (29 / 2 + 23 / 2 * real 1 / 30) \<le> 1 / 200"
    and "- (1 / 200) \<le> real_of_int n / 100 - (29 / 2 + 23 / 2 * real 1 / 30)"
    by linarith+
  then have "real_of_int n \<le> 1488 + 5 / 6" and "1487 + 5 / 6 \<le> real_of_int n"
    by simp_all
  then have "n \<le> 1488" and "1488 \<le> n" by linarith+
  then show ?thesis by simp
qed

subsection \<open>Claims about the forecast\<close>

text \<open>
  \<^bold>\<open>C2.\<close> The forecast returns the dictionary with error \<open>Insufficient data\<close> and its
  message exactly when the request has fewer than 30 transactions, and a forecast exactly
  when it has 30 or more.
\<close>

theorem forecast_insufficient_iff:
  "(forecast_expenses today request =
      InsufficientData ''Insufficient data''
        ''Need at least 30 transactions for accurate forecasting''
    \<longleftrightarrow> length (transactions request) < 30) \<and>
   ((\<exists>e m. forecast_expenses today request = InsufficientData e m)
    \<longleftrightarrow> length (transactions request) < 30) \<and>
   ((\<exists>f. forecast_expenses today request = Forecast f)
    \<longleftrightarrow> 30 \<le> length (transactions request))"
proof (cases "length (transactions request) < 30")
  case True
  then show ?thesis by (simp add: forecast_expenses_insufficient)
next
  case False
  then have "30 \<le> length (transactions request)" by simp
  from forecast_expenses_sufficient [OF this, of today] False show ?thesis by simp
qed

theorem forecast_insufficient_iff_witness:
  "forecast_expenses 20000
     \<lparr>request_user_id = 1,
      transactions = replicate 29 \<lparr>description = ''lunch'', amount = 10, type = ''expense'',
                                   transaction_date = 19990, category_id = 1, user_id = 1\<rparr>\<rparr> =
     InsufficientData ''Insufficient data''
       ''Need at least 30 transactions for accurate forecasting'' \<and>
   (\<exists>f. forecast_expenses 20000
     \<lparr>request_user_id = 1,
      transactions = replicate 30 \<lparr>description = ''lunch'', amount = 10, type = ''expense'',
                                   transaction_date = 19990, category_id = 1, user_id = 1\<rparr>\<rparr> =
     Forecast f)"
  using forecast_insufficient_iff [of 20000 "\<lparr>request_user_id = 1,
      transactions = replicate 29 \<lparr>description = ''lunch'', amount = 10, type = ''expense'',
                                   transaction_date = 19990, category_id = 1, user_id = 1\<rparr>\<rparr>"]
    forecast_insufficient_iff [of 20000 "\<lparr>request_user_id = 1,
      transactions = replicate 30 \<lparr>description = ''lunch'', amount = 10, type = ''expense'',
                                   transaction_date = 19990, category_id = 1, user_id = 1\<rparr>\<rparr>"]
  by simp

text \<open>
  \<^bold>\<open>C5.\<close> The \<open>daily_predictions\<close> of a forecast are 30 entries dated
  \<open>today + 1\<close>, ..., \<open>today + 30\<close>: the first is the day after the anchor date, each
  next one is one day later, and the dates are strictly increasing.
\<close>

theorem daily_predictions_dates:
  assumes "forecast_expenses today request = Forecast f"
  shows "length (daily_predictions f) = 30 \<and>
         map date (daily_predictions f) = map (\<lambda>k. today + 1 + int k) [0..<30] \<and>
         date (daily_predictions f ! 0) = today + 1 \<and>
         (\<forall>k<29. date (daily_predictions f ! Suc k) = date (daily_predictions f ! k) + 1) \<and>
         sorted_wrt (<) (map date (daily_predictions f))"
proof -
  have "30 \<le> length (transactions request)"
    using assms by (auto simp: forecast_expenses_def split: if_splits)
  from forecast_expenses_sufficient [OF this, of today] assms
  have dp: "daily_predictions f = map (\<lambda>i. \<lparr>date = today + int i,
                     predicted_amount =
                       round2 (fadd (avg_daily_of (transactions request))
                         (fdiv (fmul (trend_of (transactions request)) (Num (real i))) (Num 30))),
                     confidence_label = ''medium''\<rparr>) [1..<31]"
    by simp
  have len: "length (daily_predictions f) = 30" unfolding dp by simp
  have nth: "date (daily_predictions f ! k) = today + 1 + int k" if "k < 30" for k
    unfolding dp using that by (simp del: upt_rec_numeral)
  have m: "map date (daily_predictions f) = map (\<lambda>k. today + 1 + int k) [0..<30]"
    by (rule nth_equalityI) (simp_all add: len nth del: upt_rec_numeral)
  have "sorted_wrt (<) (map (\<lambda>k. today + 1 + int k) [0..<30])"
    by (simp add: sorted_wrt_map sorted_wrt_upt del: upt_rec_numeral)
  with len m nth show ?thesis by simp
qed

theorem daily_predictions_dates_witness:
  "\<exists>f. forecast_expenses 20000
     \<lparr>request_user_id = 1,
      transactions = replicate 30 \<lparr>description = ''lunch'', amount = 10, type = ''expense'',
                                   transaction_date = 19990, category_id = 1, user_id = 1\<rparr>\<rparr> =
     Forecast f \<and>
     length (daily_predictions f) = 30 \<and>
     date (daily_predictions f ! 0) = 20001 \<and>
     date (daily_predictions f ! 29) = 20030"
proof -
  let ?req = "\<lparr>request_user_id = 1,
      transactions = replicate 30 \<lparr>description = ''lunch'', amount = 10, type = ''expense'',
                                   transaction_date = 19990, category_id = 1, user_id = 1\<rparr>\<rparr>"
  have "30 \<le> length (transactions ?req)" by simp
  from forecast_expenses_sufficient [OF this, of 20000]
  obtain f where f: "forecast_expenses 20000 ?req = Forecast f" by blast
  from daily_predictions_dates [OF f]
  have len: "length (daily_predictions f) = 30"
    and m: "map date (daily_predictions f) = map (\<lambda>k. 20000 + 1 + int k) [0..<30]"
    and first: "date (daily_predictions f ! 0) = 20001"
    by simp_all
  have "date (daily_predictions f ! 29) = map date (daily_predictions f) ! 29"
    using len by simp
  also have "\<dots> = 20030"
    unfolding m by (simp del: upt_rec_numeral)
  finally have "date (daily_predictions f ! 29) = 20030" .
  with f len first show ?thesis by blast
qed

text \<open>
  \<^bold>\<open>C7.\<close> A forecast reports \<open>increasing\<close> exactly when the trend is a number above
  0 and \<open>decreasing\<close> in every other case; a trend of 0 reports \<open>decreasing\<close>.
\<close>

theorem trend_direction:
  assumes "forecast_expenses today request = Forecast f"
  shows "(trend f = ''increasing'' \<longleftrightarrow> (\<exists>x. trend_of (transactions request) = Num x \<and> 0 < x)) \<and>
         (trend f = ''decreasing'' \<longleftrightarrow> \<not> (\<exists>x. trend_of (transactions request) = Num x \<and> 0 < x)) \<and>
         (trend_of (transactions request) = Num 0 \<longrightarrow> trend f = ''decreasing'')"
proof -
  have "30 \<le> length (transactions request)"
    using assms by (auto simp: forecast_expenses_def split: if_splits)
  from forecast_expenses_sufficient [OF this, of today] assms
  have "trend f = (if gt_zero (trend_of (transactions request)) then ''increasing''
                 else ''decreasing'')"
    by simp
  then show ?thesis by (auto simp: gt_zero_iff)
qed

theorem trend_direction_witness:
  "\<exists>f. forecast_expenses 20000
     \<lparr>request_user_id = 1,
      transactions =
        map (\<lambda>i. \<lparr>description = ''lunch'', amount = 10, type = ''expense'',
                    transaction_date = int i, category_id = 1, user_id = 1\<rparr>) [0..<30]\<rparr> =
     Forecast f \<and>
     trend_of
       (map (\<lambda>i. \<lparr>description = ''lunch'', amount = 10, type = ''expense'',
                   transaction_date = int i, category_id = 1, user_id = 1\<rparr>) [0..<30]) = Num 0 \<and>
     trend f = ''decreasing''"
proof -
  let ?txs = "map (\<lambda>i. \<lparr>description = ''lunch'', amount = 10, type = ''expense'',
                    transaction_date = int i, category_id = 1, user_id = 1\<rparr>) [0..<30]"
  let ?req = "\<lparr>request_user_id = 1, transactions = ?txs\<rparr>"
  have "30 \<le> length (transactions ?req)" by simp
  from forecast_expenses_sufficient [OF this, of 20000]
  obtain f where f: "forecast_expenses 20000 ?req = Forecast f" by blast
  have t: "trend_of (transactions ?req) = Num 0"
    using thirty_days_trend by simp
  from trend_direction [OF f] t have "trend f = ''decreasing''" by blast
  with f t show ?thesis by auto
qed

text \<open>
  \<^bold>\<open>C4.\<close> With at least 30 transactions a forecast is produced, and each of its 30
  entries carries the label \<open>medium\<close>. Let the daily totals be the sums of the amounts of
  each distinct date, in date order, \<open>avg\<close> their arithmetic mean and \<open>t\<close> the mean of
  the last 7 totals minus the mean of the last 30, none of them rounded. With 30 or more
  totals, entry \<open>i\<close> (from 1 to 30) holds a whole number of cents that lies within half a
  cent of \<open>avg + t * i / 30\<close>; with fewer, the trend is NaN and so is the entry. The
  statement is in real arithmetic and does not depend on the side a tie is rounded to.
\<close>

theorem predicted_amount_formula:
  assumes "30 \<le> length (transactions request)" and "1 \<le> i" and "i \<le> 30"
  shows "let txs = transactions request;
             totals = map (\<lambda>d. sum_list (map amount (filter (\<lambda>r. transaction_date r = d) txs)))
                        (sorted_list_of_set (transaction_date ` set txs));
             avg = sum_list totals / real (length totals);
             t = sum_list (take 7 (drop (length totals - 7) totals)) / 7 -
                 sum_list (take 30 (drop (length totals - 30) totals)) / 30
         in \<exists>f. forecast_expenses today request = Forecast f \<and>
                confidence_label (daily_predictions f ! (i - 1)) = ''medium'' \<and>
                (if length totals < 30
                 then predicted_amount (daily_predictions f ! (i - 1)) = NaN
                 else \<exists>n. predicted_amount (daily_predictions f ! (i - 1)) =
                             Num (real_of_int n / 100) \<and>
                           \<bar>real_of_int n / 100 - (avg + t * real i / 30)\<bar> \<le> 1 / 200)"
proof -
  let ?txs = "transactions request"
  let ?totals = "map (\<lambda>d. sum_list (map amount (filter (\<lambda>r. transaction_date r = d) ?txs)))
                        (sorted_list_of_set (transaction_date ` set ?txs))"
  let ?avg = "sum_list ?totals / real (length ?totals)"
  let ?t = "sum_list (take 7 (drop (length ?totals - 7) ?totals)) / 7 -
                 sum_list (take 30 (drop (length ?totals - 30) ?totals)) / 30"
  let ?f = "\<lparr>forecast_period = ''30_days'',
        total_predicted_expense =
          round2 (foldl fadd (Num 0)
            (map (\<lambda>i. round2 (fadd (avg_daily_of ?txs)
                     (fdiv (fmul (trend_of ?txs) (Num (real i))) (Num 30))))
              [1..<31])),
        daily_predictions =
          map (\<lambda>i. \<lparr>date = today + int i,
                     predicted_amount =
                       round2 (fadd (avg_daily_of ?txs)
                         (fdiv (fmul (trend_of ?txs) (Num (real i))) (Num 30))),
                     confidence_label = ''medium''\<rparr>)
            [1..<31],
        avg_daily_expense = round2 (avg_daily_of ?txs),
        trend = (if gt_zero (trend_of ?txs) then ''increasing'' else ''decreasing'')\<rparr>"
  from assms(1) have ne: "?txs \<noteq> []" by auto
  have f: "forecast_expenses today request = Forecast ?f"
    by (rule forecast_expenses_sufficient [OF assms(1)])
  have tot: "daily_spending_of ?txs = ?totals" by (rule daily_spending_of_spec)
  have len: "length ?totals = card (transaction_date ` set ?txs)"
    using length_daily_spending_of [of ?txs] unfolding tot .
  have avg: "avg_daily_of ?txs = Num ?avg"
    using avg_daily_of_defined [OF ne] unfolding tot .
  have "[1..<31] ! (i - 1) = i" and "i - 1 < length [1..<31]"
    using assms(2,3) by (simp_all del: upt_rec_numeral)
  then have p: "predicted_amount (daily_predictions ?f ! (i - 1)) =
        round2 (fadd (Num ?avg) (fdiv (fmul (trend_of ?txs) (Num (real i))) (Num 30)))"
    and c: "confidence_label (daily_predictions ?f ! (i - 1)) = ''medium''"
    by (simp_all add: avg del: upt_rec_numeral)
  have r: "if length ?totals < 30
           then predicted_amount (daily_predictions ?f ! (i - 1)) = NaN
           else \<exists>n. predicted_amount (daily_predictions ?f ! (i - 1)) =
                             Num (real_of_int n / 100) \<and>
                           \<bar>real_of_int n / 100 - (?avg + ?t * real i / 30)\<bar> \<le> 1 / 200"
  proof (cases "length ?totals < 30")
    case True
    then have "trend_of ?txs = NaN"
      using trend_of_few_days [OF ne] len by simp
    then have "round2 (fadd (Num ?avg) (fdiv (fmul (trend_of ?txs) (Num (real i))) (Num 30))) = NaN"
      by (simp add: fadd_NaN_right)
    with p have "predicted_amount (daily_predictions ?f ! (i - 1)) = NaN"
      by (rule trans)
    with True show ?thesis by (simp only: if_True)
  next
    case False
    then have "30 \<le> card (transaction_date ` set ?txs)" using len by simp
    from trend_of_30_days [OF this] have "trend_of ?txs = Num ?t" unfolding tot .
    then have "round2 (fadd (Num ?avg) (fdiv (fmul (trend_of ?txs) (Num (real i))) (Num 30))) =
        round2 (Num (?avg + ?t * real i / 30))"
      by simp
    with p have q: "predicted_amount (daily_predictions ?f ! (i - 1)) =
        round2 (Num (?avg + ?t * real i / 30))"
      by (rule trans)
    from round2_nearest [of "?avg + ?t * real i / 30"]
    obtain n where "round2 (Num (?avg + ?t * real i / 30)) = Num (real_of_int n / 100)"
      and b: "\<bar>real_of_int n / 100 - (?avg + ?t * real i / 30)\<bar> \<le> 1 / 200"
      by blast
    with q have "predicted_amount (daily_predictions ?f ! (i - 1)) = Num (real_of_int n / 100)"
      by (simp only:)
    with b have "\<exists>n. predicted_amount (daily_predictions ?f ! (i - 1)) =
                             Num (real_of_int n / 100) \<and>
                           \<bar>real_of_int n / 100 - (?avg + ?t * real i / 30)\<bar> \<le> 1 / 200"
      by blast
    with False show ?thesis by (simp only: if_False)
  qed
  from f c r show ?thesis unfolding Let_def by blast
qed

theorem predicted_amount_formula_witness:
  "\<exists>f. forecast_expenses 20000
     \<lparr>request_user_id = 1,
      transactions =
        map (\<lambda>i. \<lparr>description = ''lunch'', amount = real i, type = ''expense'',
                    transaction_date = int i, category_id = 1, user_id = 1\<rparr>) [0..<30]\<rparr> =
     Forecast f \<and>
     predicted_amount (daily_predictions f ! 0) = Num (1488 / 100) \<and>
     confidence_label (daily_predictions f ! 0) = ''medium''"
proof -
  let ?txs = "map (\<lambda>i. \<lparr>description = ''lunch'', amount = real i, type = ''expense'',
                    transaction_date = int i, category_id = 1, user_id = 1\<rparr>) [0..<30]"
  let ?req = "\<lparr>request_user_id = 1, transactions = ?txs\<rparr>"
  have h: "30 \<le> length (transactions ?req)" by simp
  have tx: "transactions ?req = ?txs" by simp
  have tot: "map (\<lambda>d. sum_list (map amount (filter (\<lambda>r. transaction_date r = d) ?txs)))
               (sorted_list_of_set (transaction_date ` set ?txs)) = map real [0..<30]"
    using daily_spending_of_spec [of ?txs] rising_days_daily by simp
  have l: "\<not> length (map real [0..<30]) < 30" by simp
  from predicted_amount_formula [OF h, of 1 20000]
  obtain f n where f: "forecast_expenses 20000 ?req = Forecast f"
    and c: "confidence_label (daily_predictions f ! 0) = ''medium''"
    and p: "predicted_amount (daily_predictions f ! 0) = Num (real_of_int n / 100)"
    and b: "\<bar>real_of_int n / 100 - (29 / 2 + 23 / 2 * real 1 / 30)\<bar> \<le> 1 / 200"
    unfolding Let_def tx tot rising_days_mean rising_days_slope using l by auto
  from cents_unique [OF b] p have "predicted_amount (daily_predictions f ! 0) = Num (1488 / 100)"
    by simp
  with f c show ?thesis by blast
qed

text \<open>
  \<^bold>\<open>C9.\<close> With at least 30 transactions on fewer than 30 distinct dates, the 30-day
  moving average at the last position is NaN, so the trend, every predicted amount and
  their total are NaN; the function still returns a forecast, with 30 entries and the
  direction \<open>decreasing\<close>.
\<close>

theorem forecast_nan_under_30_days:
  assumes "30 \<le> length (transactions request)"
    and "card (transaction_date ` set (transactions request)) < 30"
  shows "\<exists>f. forecast_expenses today request = Forecast f \<and>
           last (ma_30_of (transactions request)) = NaN \<and>
           trend_of (transactions request) = NaN \<and>
           length (daily_predictions f) = 30 \<and>
           (\<forall>p\<in>set (daily_predictions f). predicted_amount p = NaN) \<and>
           total_predicted_expense f = NaN \<and>
           trend f = ''decreasing''"
proof -
  from assms(1) have ne: "transactions request \<noteq> []" by auto
  have t: "trend_of (transactions request) = NaN"
    by (rule trend_of_few_days [OF ne assms(2)])
  have "foldl fadd a (map (\<lambda>i. NaN) xs) = (if xs = [] then a else NaN)" for a and xs :: "nat list"
    by (induction xs arbitrary: a) (auto simp: fadd_NaN_right)
  then have "foldl fadd (Num 0) (map (\<lambda>i. NaN) [1..<31::nat]) = NaN"
    by (simp del: upt_rec_numeral)
  then show ?thesis
    using last_ma_30_of [OF ne assms(2)]
    by (simp add: forecast_expenses_sufficient [OF assms(1)] t fadd_NaN_right
        del: upt_rec_numeral)
qed

theorem forecast_nan_under_30_days_witness:
  "\<exists>f. forecast_expenses 20000
     \<lparr>request_user_id = 1,
      transactions = replicate 30 \<lparr>description = ''lunch'', amount = 10, type = ''expense'',
                                   transaction_date = 19990, category_id = 1, user_id = 1\<rparr>\<rparr> =
     Forecast f \<and>
     predicted_amount (daily_predictions f ! 0) = NaN \<and>
     total_predicted_expense f = NaN \<and>
     trend f = ''decreasing''"
proof -
  let ?req = "\<lparr>request_user_id = 1,
      transactions = replicate 30 \<lparr>description = ''lunch'', amount = 10, type = ''expense'',
                                   transaction_date = 19990, category_id = 1, user_id = 1\<rparr>\<rparr>"
  have h: "30 \<le> length (transactions ?req)" by simp
  have c: "card (transaction_date ` set (transactions ?req)) < 30" by simp
  from forecast_nan_under_30_days [OF h c, of 20000]
  obtain f where f: "forecast_expenses 20000 ?req = Forecast f"
    and len: "length (daily_predictions f) = 30"
    and nan: "\<forall>p\<in>set (daily_predictions f). predicted_amount p = NaN"
    and rest: "total_predicted_expense f = NaN" "trend f = ''decreasing''"
    by blast
  from len have "daily_predictions f ! 0 \<in> set (daily_predictions f)" by simp
  with nan have "predicted_amount (daily_predictions f ! 0) = NaN" by blast
  with f rest show ?thesis by blast
qed

text \<open>
  \<^bold>\<open>C1.\<close> The claim gives a trend of 0 to a history of fewer than 7 distinct days.
  The guard \<open>len(ma_7) > 0\<close> counts the positions of the rolling series, NaN ones
  included, so it holds whenever there is a transaction and the fallback \<open>else 0\<close> is
  never taken: 30 transactions on one day give one daily total and the trend NaN, not 0.
  (On 30 or more distinct days the trend is the difference of the two latest averages:
  lemma \<open>trend_of_30_days\<close>.)
\<close>

theorem trend_nan_on_one_day:
  "length (replicate 30 \<lparr>description = ''lunch'', amount = 10, type = ''expense'',
                         transaction_date = 19990, category_id = 1, user_id = 1\<rparr>) = 30 \<and>
   length (daily_spending_of
     (replicate 30 \<lparr>description = ''lunch'', amount = 10, type = ''expense'',
                    transaction_date = 19990, category_id = 1, user_id = 1\<rparr>)) = 1 \<and>
   trend_of
     (replicate 30 \<lparr>description = ''lunch'', amount = 10, type = ''expense'',
                    transaction_date = 19990, category_id = 1, user_id = 1\<rparr>) = NaN \<and>
   trend_of
     (replicate 30 \<lparr>description = ''lunch'', amount = 10, type = ''expense'',
                    transaction_date = 19990, category_id = 1, user_id = 1\<rparr>) \<noteq> Num 0"
proof -
  let ?txs = "replicate 30 \<lparr>description = ''lunch'', amount = 10, type = ''expense'',
                    transaction_date = 19990, category_id = 1, user_id = 1\<rparr>"
  have ne: "?txs \<noteq> []" by simp
  have c: "card (transaction_date ` set ?txs) < 30" by simp
  have "trend_of ?txs = NaN" by (rule trend_of_few_days [OF ne c])
  moreover have "length (daily_spending_of ?txs) = 1"
    by (simp add: length_daily_spending_of)
  ultimately show ?thesis by simp
qed

section \<open>Properties of the trainer\<close>

text \<open>
  \<^bold>\<open>C6.\<close> A batch of fewer than 50 transactions gets the message asking for at least
  50 and leaves the model store as it was. A batch of 50 or more (amounts above \<open>-1\<close>,
  where \<open>log1p\<close> is a number) gets a report whose \<open>samples_used\<close> is the batch size,
  and the store then holds an artifact under the \<open>user_id\<close> of the first transaction,
  every other key being unchanged.
\<close>

theorem train_threshold:
  "(length batch < 50 \<longrightarrow>
      train_categorization_model models batch =
        (NeedMore ''Need at least 50 labeled transactions to train'', models)) \<and>
   (50 \<le> length batch \<and> (\<forall>r\<in>set batch. - 1 < amount r) \<longrightarrow>
      (\<exists>r m. train_categorization_model models batch =
                (Trained r, models(user_id (hd batch) \<mapsto> m)) \<and>
              samples_used r = length batch \<and>
              snd (train_categorization_model models batch) (user_id (hd batch)) = Some m \<and>
              (\<forall>u. u \<noteq> user_id (hd batch) \<longrightarrow>
                   snd (train_categorization_model models batch) u = models u)))"
proof (cases "length batch < 50")
  case True
  then show ?thesis by (simp add: train_categorization_model_def)
next
  case False
  then have "batch \<noteq> []" by auto
  then have "batch ! 0 = hd batch" by (simp add: hd_conv_nth)
  with False show ?thesis
    by (simp add: train_categorization_model_def Let_def)
qed

theorem train_threshold_witness:
  "train_categorization_model Map.empty
     (replicate 49 \<lparr>description = ''lunch'', amount = 10, type = ''expense'',
                    transaction_date = 19990, category_id = 1, user_id = 7\<rparr>) =
     (NeedMore ''Need at least 50 labeled transactions to train'', Map.empty) \<and>
   (\<exists>r m. train_categorization_model Map.empty
       (replicate 50 \<lparr>description = ''lunch'', amount = 10, type = ''expense'',
                      transaction_date = 19990, category_id = 1, user_id = 7\<rparr>) =
       (Trained r, [7 \<mapsto> m]) \<and> samples_used r = 50)"
proof -
  let ?row = "\<lparr>description = ''lunch'', amount = 10, type = ''expense'',
                    transaction_date = 19990, category_id = 1, user_id = 7\<rparr>"
  have a: "length (replicate 49 ?row) < 50" by simp
  have b: "50 \<le> length (replicate 50 ?row) \<and> (\<forall>r\<in>set (replicate 50 ?row). - 1 < amount r)"
    by simp
  have h: "hd (replicate 50 ?row) = ?row" by (simp add: hd_replicate)
  from train_threshold [of "replicate 49 ?row" Map.empty] a
  have "train_categorization_model Map.empty (replicate 49 ?row) =
        (NeedMore ''Need at least 50 labeled transactions to train'', Map.empty)"
    by blast
  moreover from train_threshold [of "replicate 50 ?row" Map.empty] b
  have "\<exists>r m. train_categorization_model Map.empty (replicate 50 ?row) =
                (Trained r, Map.empty(user_id (hd (replicate 50 ?row)) \<mapsto> m)) \<and>
              samples_used r = length (replicate 50 ?row)"
    by blast
  ultimately show ?thesis unfolding h by simp
qed

end
